theory Spec2Isabelle
  imports Main "HOL-Library.AList" "HOL-Library.Word"
begin

section \<open>The snippet library\<close>

subsection \<open>Data model\<close>

text \<open>
  A \<^verbatim>\<open>snippet_id\<close> is a string identifier. The members of
  \<^verbatim>\<open>snippet_library\<close> are the two containers of
  \<^verbatim>\<open>category_snippets\<close> (the vectors \<^verbatim>\<open>ids\<close> and \<^verbatim>\<open>no_id\<close>), three
  tables keyed by id and the optional table \<^verbatim>\<open>hash_to_id_migration\<close>.
  The table \<^verbatim>\<open>snippets_by_id\<close> is the only one the code iterates over
  (in \<^verbatim>\<open>migrate_hash_to_id\<close>), so it is an association list whose order
  stands for the iteration order of the container; the other tables are maps.
  The translation type \<open>'t\<close> and the effect payload \<open>'e\<close> are opaque to this file.
\<close>

datatype snippet_id = snippet_id string

record 't category_snippets =
  ids :: "snippet_id list"
  no_id :: "'t list"

record ('t, 'e) snippet_library =
  snippets_by_category :: "string \<rightharpoonup> 't category_snippets"
  snippets_by_id :: "(snippet_id \<times> 't) list"
  EOC_by_id :: "snippet_id \<rightharpoonup> 'e"
  name_by_id :: "snippet_id \<rightharpoonup> 't"
  hash_to_id_migration :: "(int \<rightharpoonup> snippet_id) option"

text \<open>
  What this file uses and does not define: the null id of \<^verbatim>\<open>string_id\<close>, the
  default-constructed (empty) translation, \<^verbatim>\<open>translation::translated\<close>,
  \<^verbatim>\<open>translation::legacy_hash\<close>, \<^verbatim>\<open>rng_bits\<close> over the state \<open>'g\<close> of the
  global generator, and the draw of \<^verbatim>\<open>std::uniform_int_distribution<size_t>(lo, hi)\<close>
  from a \<^verbatim>\<open>std::mt19937\<close> seeded with the given value. They are parameters.
  So is the one choice C++ leaves to the implementation in this file: which of the two
  recursive calls of \<^verbatim>\<open>expand\<close>, operands of one \<^verbatim>\<open>+\<close>, runs first.
  \<open>remainder_first\<close> tells, for the string and the generator state of a call, whether
  the remainder after the tag is expanded before the replacement.
\<close>

record ('t, 'g) externals =
  NULL_ID :: snippet_id
  empty_translation :: 't
  translated :: "'t \<Rightarrow> string"
  legacy_hash :: "'t \<Rightarrow> int option"
  rng_bits :: "'g \<Rightarrow> 32 word \<times> 'g"
  uniform_int :: "32 word \<Rightarrow> nat \<Rightarrow> nat \<Rightarrow> nat"
  remainder_first :: "string \<Rightarrow> 'g \<Rightarrow> bool"

text \<open>
  The JSON reader is seen through the results of its reads. A \<^verbatim>\<open>JsonObject\<close>
  holds what \<^verbatim>\<open>add_snippet_from_json\<close> asks of it: the mandatory member
  \<^verbatim>\<open>text\<close> (\<open>None\<close> when \<^verbatim>\<open>mandatory\<close> throws), and the optional members
  \<^verbatim>\<open>id\<close>, \<^verbatim>\<open>effect_on_examine\<close> (already parsed) and \<^verbatim>\<open>name\<close>. An array
  element is a string (with the result of reading it as a translation), an object, or
  anything else, on which \<^verbatim>\<open>get_object\<close> throws.
\<close>

record ('t, 'e) JsonObject =
  jo_text :: "'t option"
  jo_id :: "snippet_id option"
  jo_effect_on_examine :: "'e option"
  jo_name :: "'t option"

datatype ('t, 'e) JsonValue =
    JsonString "'t option"
  | JsonObj "('t, 'e) JsonObject"
  | JsonOther

text \<open>
  The object given to \<^verbatim>\<open>load_snippet\<close>: its member \<^verbatim>\<open>category\<close>, its member
  \<^verbatim>\<open>text\<close> when that is an array, and the same object as \<^verbatim>\<open>add_snippet_from_json\<close>
  reads it.
\<close>

record ('t, 'e) snippet_json =
  js_category :: "string option"
  js_text_array :: "('t, 'e) JsonValue list option"
  js_object :: "('t, 'e) JsonObject"

datatype error = MalformedEntry | InvalidId | DuplicateId

subsection \<open>Loading\<close>

text \<open>
  \<^verbatim>\<open>snippets_by_category[category]\<close>: the bucket of the category, a fresh empty one
  when the category is new.
\<close>

definition at_category ::
  "(string \<rightharpoonup> 't category_snippets) \<Rightarrow> string \<Rightarrow> 't category_snippets" where
  "at_category m category =
     (case m category of None \<Rightarrow> \<lparr>ids = [], no_id = []\<rparr> | Some cs \<Rightarrow> cs)"

definition emplace_back_no_id ::
  "string \<Rightarrow> 't \<Rightarrow> ('t, 'e) snippet_library \<Rightarrow> ('t, 'e) snippet_library" where
  "emplace_back_no_id category text l =
     (let cs = at_category (snippets_by_category l) category
      in l\<lparr>snippets_by_category :=
            (snippets_by_category l)(category \<mapsto> cs\<lparr>no_id := no_id cs @ [text]\<rparr>)\<rparr>)"

definition emplace_back_id ::
  "string \<Rightarrow> snippet_id \<Rightarrow> ('t, 'e) snippet_library \<Rightarrow> ('t, 'e) snippet_library" where
  "emplace_back_id category i l =
     (let cs = at_category (snippets_by_category l) category
      in l\<lparr>snippets_by_category :=
            (snippets_by_category l)(category \<mapsto> cs\<lparr>ids := ids cs @ [i]\<rparr>)\<rparr>)"

text \<open>
  A thrown JSON error is the left summand; the library is returned in both cases,
  as the exception leaves the global object the way it was when thrown. The calls
  of \<^verbatim>\<open>debugmsg\<close> only report and are left out.
\<close>

definition add_snippet_from_json ::
  "('t, 'g) externals \<Rightarrow> string \<Rightarrow> ('t, 'e) JsonObject \<Rightarrow> ('t, 'e) snippet_library
     \<Rightarrow> (error + unit) \<times> ('t, 'e) snippet_library" where
  "add_snippet_from_json ext category jo l0 =
     (let l = l0\<lparr>hash_to_id_migration := None\<rparr> in
      case jo_text jo of
        None \<Rightarrow> (Inl MalformedEntry, l)
      | Some text \<Rightarrow>
          (case jo_id jo of
             Some i \<Rightarrow>
               if i = NULL_ID ext then (Inl InvalidId, l)
               else if map_of (snippets_by_id l) i \<noteq> None then (Inl DuplicateId, l)
               else
                 let l1 = emplace_back_id category i l;
                     l2 = l1\<lparr>snippets_by_id := AList.update i text (snippets_by_id l1)\<rparr>;
                     l3 = (case jo_effect_on_examine jo of
                             None \<Rightarrow> l2
                           | Some e \<Rightarrow> l2\<lparr>EOC_by_id := (EOC_by_id l2)(i \<mapsto> e)\<rparr>);
                     name = (case jo_name jo of
                               None \<Rightarrow> empty_translation ext
                             | Some n \<Rightarrow> n)
                 in (Inr (), l3\<lparr>name_by_id := (name_by_id l3)(i \<mapsto> name)\<rparr>)
           | None \<Rightarrow> (Inr (), emplace_back_no_id category text l)))"

text \<open>The loop of \<^verbatim>\<open>add_snippets_from_json\<close> over the array; it stops at the first throw.\<close>

fun add_entries ::
  "('t, 'g) externals \<Rightarrow> string \<Rightarrow> ('t, 'e) JsonValue list \<Rightarrow> ('t, 'e) snippet_library
     \<Rightarrow> (error + unit) \<times> ('t, 'e) snippet_library" where
  "add_entries ext category [] l = (Inr (), l)"
| "add_entries ext category (JsonString None # rest) l = (Inl MalformedEntry, l)"
| "add_entries ext category (JsonString (Some text) # rest) l =
     add_entries ext category rest (emplace_back_no_id category text l)"
| "add_entries ext category (JsonObj jo # rest) l =
     (case add_snippet_from_json ext category jo l of
        (Inl e, l') \<Rightarrow> (Inl e, l')
      | (Inr u, l') \<Rightarrow> add_entries ext category rest l')"
| "add_entries ext category (JsonOther # rest) l = (Inl MalformedEntry, l)"

definition add_snippets_from_json ::
  "('t, 'g) externals \<Rightarrow> string \<Rightarrow> ('t, 'e) JsonValue list \<Rightarrow> ('t, 'e) snippet_library
     \<Rightarrow> (error + unit) \<times> ('t, 'e) snippet_library" where
  "add_snippets_from_json ext category jarr l =
     add_entries ext category jarr (l\<lparr>hash_to_id_migration := None\<rparr>)"

definition load_snippet ::
  "('t, 'g) externals \<Rightarrow> ('t, 'e) snippet_json \<Rightarrow> ('t, 'e) snippet_library
     \<Rightarrow> (error + unit) \<times> ('t, 'e) snippet_library" where
  "load_snippet ext jsobj l0 =
     (let l = l0\<lparr>hash_to_id_migration := None\<rparr> in
      case js_category jsobj of
        None \<Rightarrow> (Inl MalformedEntry, l)
      | Some category \<Rightarrow>
          (case js_text_array jsobj of
             Some jarr \<Rightarrow> add_snippets_from_json ext category jarr l
           | None \<Rightarrow> add_snippet_from_json ext category (js_object jsobj) l))"

definition clear_snippets :: "('t, 'e) snippet_library \<Rightarrow> ('t, 'e) snippet_library" where
  "clear_snippets l =
     l\<lparr>hash_to_id_migration := None, snippets_by_category := Map.empty, snippets_by_id := []\<rparr>"

text \<open>The library before anything is loaded: every container empty.\<close>

definition empty_library :: "('t, 'e) snippet_library" where
  "empty_library =
     \<lparr>snippets_by_category = Map.empty, snippets_by_id = [], EOC_by_id = Map.empty,
      name_by_id = Map.empty, hash_to_id_migration = None\<rparr>"

subsection \<open>Lookup\<close>

definition has_category :: "('t, 'e) snippet_library \<Rightarrow> string \<Rightarrow> bool" where
  "has_category l category = (snippets_by_category l category \<noteq> None)"

definition get_snippet_by_id :: "('t, 'e) snippet_library \<Rightarrow> snippet_id \<Rightarrow> 't option" where
  "get_snippet_by_id l i = map_of (snippets_by_id l) i"

definition get_EOC_by_id :: "('t, 'e) snippet_library \<Rightarrow> snippet_id \<Rightarrow> 'e option" where
  "get_EOC_by_id l i = EOC_by_id l i"

definition get_name_by_id :: "('t, 'e) snippet_library \<Rightarrow> snippet_id \<Rightarrow> 't option" where
  "get_name_by_id l i = name_by_id l i"

definition get_snippet_ref_by_id ::
  "('t, 'g) externals \<Rightarrow> ('t, 'e) snippet_library \<Rightarrow> snippet_id \<Rightarrow> 't" where
  "get_snippet_ref_by_id ext l i =
     (case map_of (snippets_by_id l) i of None \<Rightarrow> empty_translation ext | Some t \<Rightarrow> t)"

definition has_snippet_with_id :: "('t, 'e) snippet_library \<Rightarrow> snippet_id \<Rightarrow> bool" where
  "has_snippet_with_id l i = (map_of (snippets_by_id l) i \<noteq> None)"

subsection \<open>Random selection\<close>

text \<open>
  The seeded overload. The index is what the distribution over \<open>[0, count - 1]\<close> draws
  from the generator seeded with \<open>seed\<close>. The standard library keeps the index
  within these bounds (\<open>uniform_int_in_range\<close> below), so both vectors are read in
  range.
\<close>

definition random_from_category ::
  "('t, 'g) externals \<Rightarrow> ('t, 'e) snippet_library \<Rightarrow> string \<Rightarrow> 32 word \<Rightarrow> 't option" where
  "random_from_category ext l cat seed =
     (case snippets_by_category l cat of
        None \<Rightarrow> None
      | Some cs \<Rightarrow>
          if ids cs = [] \<and> no_id cs = [] then None
          else
            let count = length (ids cs) + length (no_id cs);
                index = uniform_int ext seed 0 (count - 1)
            in if index < length (ids cs) then get_snippet_by_id l (ids cs ! index)
               else Some (no_id cs ! (index - length (ids cs))))"

text \<open>The overload without a seed: the seed is the next \<^verbatim>\<open>rng_bits()\<close>.\<close>

definition random_from_category_rng ::
  "('t, 'g) externals \<Rightarrow> ('t, 'e) snippet_library \<Rightarrow> string \<Rightarrow> 'g \<Rightarrow> 't option \<times> 'g" where
  "random_from_category_rng ext l cat g =
     (case rng_bits ext g of (seed, g') \<Rightarrow> (random_from_category ext l cat seed, g'))"

subsection \<open>Tag expansion\<close>

text \<open>
  \<^verbatim>\<open>std::string::find(c, pos)\<close>: the first position at or after \<open>pos\<close> that holds
  \<open>c\<close>; \<open>None\<close> is \<^verbatim>\<open>npos\<close>. \<^verbatim>\<open>substr(pos, n)\<close> is called with \<open>pos\<close> within
  the string only, and \<^verbatim>\<open>substr(pos)\<close> is \<open>drop pos\<close>.
\<close>

fun find_in :: "char \<Rightarrow> string \<Rightarrow> nat \<Rightarrow> nat option" where
  "find_in c [] i = None"
| "find_in c (x # xs) i = (if x = c then Some i else find_in c xs (Suc i))"

definition find_char :: "string \<Rightarrow> char \<Rightarrow> nat \<Rightarrow> nat option" where
  "find_char str c pos = (if length str < pos then None else find_in c (drop pos str) pos)"

definition substr :: "string \<Rightarrow> nat \<Rightarrow> nat \<Rightarrow> string" where
  "substr str pos n = take n (drop pos str)"

text \<open>
  \<^verbatim>\<open>expand\<close> draws from the global generator, so the state of the generator is
  passed through. The two recursive calls of the last \<^verbatim>\<open>return\<close> are operands of one
  \<^verbatim>\<open>+\<close> and not sequenced: the one that runs first starts from the state the draw
  left, the other from the state the first one left, and \<open>remainder_first\<close> says
  which is which. A chain of categories that refer to each other makes the recursion
  run on without end; the value is then \<open>None\<close>.
\<close>

partial_function (option) expand ::
  "('t, 'g) externals \<Rightarrow> ('t, 'e) snippet_library \<Rightarrow> string \<Rightarrow> 'g \<Rightarrow> (string \<times> 'g) option" where
  "expand ext l str g =
     (case find_char str CHR ''<'' 0 of
        None \<Rightarrow> Some (str, g)
      | Some tag_begin \<Rightarrow>
          (case find_char str CHR ''>'' (tag_begin + 1) of
             None \<Rightarrow> Some (str, g)
           | Some tag_end \<Rightarrow>
               (case random_from_category_rng ext l
                       (substr str tag_begin (tag_end - tag_begin + 1)) g of
                  (replacement, g1) \<Rightarrow>
                    (case replacement of
                       None \<Rightarrow>
                         Option.bind (expand ext l (drop (tag_end + 1) str) g1)
                           (\<lambda>(rest, g2). Some (substr str 0 (tag_end + 1) @ rest, g2))
                     | Some r \<Rightarrow>
                         if remainder_first ext str g
                         then
                           Option.bind (expand ext l (drop (tag_end + 1) str) g1)
                             (\<lambda>(rest, g2).
                                Option.bind (expand ext l (translated ext r) g2)
                                  (\<lambda>(middle, g3).
                                     Some (substr str 0 tag_begin @ middle @ rest, g3)))
                         else
                           Option.bind (expand ext l (translated ext r) g1)
                             (\<lambda>(middle, g2).
                                Option.bind (expand ext l (drop (tag_end + 1) str) g2)
                                  (\<lambda>(rest, g3).
                                     Some (substr str 0 tag_begin @ middle @ rest, g3)))))))"

declare expand.simps [code]

subsection \<open>Hash migration\<close>

text \<open>
  The loop over \<^verbatim>\<open>snippets_by_id\<close>; \<^verbatim>\<open>emplace\<close> keeps the entry that is
  already there.
\<close>

fun build_migration ::
  "('t, 'g) externals \<Rightarrow> (snippet_id \<times> 't) list \<Rightarrow> (int \<rightharpoonup> snippet_id)
     \<Rightarrow> (int \<rightharpoonup> snippet_id)" where
  "build_migration ext [] m = m"
| "build_migration ext ((i, text) # rest) m =
     build_migration ext rest
       (case legacy_hash ext text of
          None \<Rightarrow> m
        | Some hash \<Rightarrow> (if m hash = None then m(hash \<mapsto> i) else m))"

definition migrate_hash_to_id ::
  "('t, 'g) externals \<Rightarrow> int \<Rightarrow> ('t, 'e) snippet_library
     \<Rightarrow> snippet_id \<times> ('t, 'e) snippet_library" where
  "migrate_hash_to_id ext old_hash l =
     (let m = (case hash_to_id_migration l of
                 None \<Rightarrow> build_migration ext (snippets_by_id l) Map.empty
               | Some m \<Rightarrow> m)
      in (case m old_hash of None \<Rightarrow> NULL_ID ext | Some i \<Rightarrow> i,
          l\<lparr>hash_to_id_migration := Some m\<rparr>))"

subsection \<open>Listing a category\<close>

definition get_snippets_by_category ::
  "('t, 'g) externals \<Rightarrow> ('t, 'e) snippet_library \<Rightarrow> string \<Rightarrow> bool
     \<Rightarrow> (snippet_id \<times> string) list" where
  "get_snippets_by_category ext l cat add_null_id =
     (if \<not> has_category l cat then []
      else
        case snippets_by_category l cat of
          None \<Rightarrow> []
        | Some snipps \<Rightarrow>
            (if add_null_id \<and> ids snipps \<noteq> [] then [(NULL_ID ext, [])] else [])
            @ map (\<lambda>i. (i, translated ext (get_snippet_ref_by_id ext l i))) (ids snipps))"

section \<open>Notions the properties are stated with\<close>

subsection \<open>Calls and reachable libraries\<close>

text \<open>
  The member functions that write to the library, as calls. The global object starts
  empty, so the libraries considered are those a list of these calls produces from
  \<open>empty_library\<close>; a call that throws leaves the library it had reached. The other
  member functions return a value and leave the library as it is.
\<close>

datatype ('t, 'e) call =
    Load_snippet "('t, 'e) snippet_json"
  | Add_snippets_from_json string "('t, 'e) JsonValue list"
  | Add_snippet_from_json string "('t, 'e) JsonObject"
  | Clear_snippets
  | Migrate_hash_to_id int

fun call_step ::
  "('t, 'g) externals \<Rightarrow> ('t, 'e) call \<Rightarrow> ('t, 'e) snippet_library
     \<Rightarrow> ('t, 'e) snippet_library" where
  "call_step ext (Load_snippet jsobj) l = snd (load_snippet ext jsobj l)"
| "call_step ext (Add_snippets_from_json category jarr) l =
     snd (add_snippets_from_json ext category jarr l)"
| "call_step ext (Add_snippet_from_json category jo) l =
     snd (add_snippet_from_json ext category jo l)"
| "call_step ext Clear_snippets l = clear_snippets l"
| "call_step ext (Migrate_hash_to_id old_hash) l = snd (migrate_hash_to_id ext old_hash l)"

definition run_calls ::
  "('t, 'g) externals \<Rightarrow> ('t, 'e) call list \<Rightarrow> ('t, 'e) snippet_library
     \<Rightarrow> ('t, 'e) snippet_library" where
  "run_calls ext calls l = fold (call_step ext) calls l"

subsection \<open>Invariants\<close>

text \<open>Every id of a category is a key of \<^verbatim>\<open>snippets_by_id\<close>.\<close>

definition registry_inv :: "('t, 'e) snippet_library \<Rightarrow> bool" where
  "registry_inv l \<longleftrightarrow>
     (\<forall>cat cs. snippets_by_category l cat = Some cs \<longrightarrow>
        (\<forall>i \<in> set (ids cs). map_of (snippets_by_id l) i \<noteq> None))"

text \<open>
  The keys of \<^verbatim>\<open>snippets_by_id\<close> are distinct, as in any map, and the migration
  table, when there is one, is the table built from the current \<^verbatim>\<open>snippets_by_id\<close>.
\<close>

definition migration_valid :: "('t, 'g) externals \<Rightarrow> ('t, 'e) snippet_library \<Rightarrow> bool" where
  "migration_valid ext l =
     (distinct (map fst (snippets_by_id l)) \<and>
      (case hash_to_id_migration l of
         None \<Rightarrow> True
       | Some m \<Rightarrow> m = build_migration ext (snippets_by_id l) Map.empty))"

text \<open>
  What \<^verbatim>\<open>migrate_hash_to_id\<close> is to return for the hash \<open>h\<close>: an id whose text has
  the legacy hash \<open>h\<close> when \<^verbatim>\<open>snippets_by_id\<close> has such an entry, the null id
  otherwise.
\<close>

definition resolves_hash ::
  "('t, 'g) externals \<Rightarrow> ('t, 'e) snippet_library \<Rightarrow> int \<Rightarrow> snippet_id \<Rightarrow> bool" where
  "resolves_hash ext l h r =
     (if list_ex (\<lambda>(i, t). legacy_hash ext t = Some h) (snippets_by_id l)
      then (case get_snippet_by_id l r of
              None \<Rightarrow> False
            | Some t \<Rightarrow> legacy_hash ext t = Some h)
      else r = NULL_ID ext)"

text \<open>
  The guarantee of the standard library for \<^verbatim>\<open>std::uniform_int_distribution\<close>: the
  value drawn lies between the two bounds, both included.
\<close>

definition uniform_int_in_range :: "('t, 'g) externals \<Rightarrow> bool" where
  "uniform_int_in_range ext \<longleftrightarrow>
     (\<forall>seed lo hi. lo \<le> hi \<longrightarrow>
        lo \<le> uniform_int ext seed lo hi \<and> uniform_int ext seed lo hi \<le> hi)"

subsection \<open>Categories and tags\<close>

text \<open>The category is unknown, or has neither ids nor anonymous texts.\<close>

definition no_snippet_available :: "('t, 'e) snippet_library \<Rightarrow> string \<Rightarrow> bool" where
  "no_snippet_available l cat =
     (case snippets_by_category l cat of
        None \<Rightarrow> True
      | Some cs \<Rightarrow> ids cs = [] \<and> no_id cs = [])"

text \<open>
  The category holds one snippet only, anonymous or with an id, and that snippet
  reads \<open>s\<close>.
\<close>

definition contains_single_text ::
  "('t, 'g) externals \<Rightarrow> ('t, 'e) snippet_library \<Rightarrow> string \<Rightarrow> string \<Rightarrow> bool" where
  "contains_single_text ext l cat s =
     (case snippets_by_category l cat of
        None \<Rightarrow> False
      | Some cs \<Rightarrow>
          (case ids cs of
             [] \<Rightarrow> (case no_id cs of [t] \<Rightarrow> translated ext t = s | _ \<Rightarrow> False)
           | [i] \<Rightarrow> no_id cs = [] \<and>
                 (case get_snippet_by_id l i of
                    None \<Rightarrow> False
                  | Some t \<Rightarrow> translated ext t = s)
           | _ \<Rightarrow> False))"

lemma find_in_bounds: "find_in c xs i = Some k \<Longrightarrow> i \<le> k \<and> k < i + length xs"
  by (induction xs arbitrary: i) (fastforce split: if_splits)+

lemma find_char_bounds: "find_char str c pos = Some k \<Longrightarrow> pos \<le> k \<and> k < length str"
  by (auto simp: find_char_def split: if_splits dest!: find_in_bounds)

text \<open>
  The tags \<^verbatim>\<open>expand\<close> meets in a string when it replaces none of them: the first
  complete tag, then the tags of what follows it.
\<close>

function scan_tags :: "string \<Rightarrow> string list" where
  "scan_tags str =
     (case find_char str CHR ''<'' 0 of
        None \<Rightarrow> []
      | Some tag_begin \<Rightarrow>
          (case find_char str CHR ''>'' (tag_begin + 1) of
             None \<Rightarrow> []
           | Some tag_end \<Rightarrow>
               substr str tag_begin (tag_end - tag_begin + 1)
                 # scan_tags (drop (tag_end + 1) str)))"
  by pat_completeness auto
termination
  by (relation "measure length") (auto dest: find_char_bounds)

declare scan_tags.simps [simp del]

subsection \<open>Sample values\<close>

text \<open>
  Translations are plain strings that translate to themselves, the legacy hash of a
  text is its length (none for the empty text), the generator counts up, the
  distribution reduces the seed into the range, and the remainder is expanded first.
\<close>

definition example_externals :: "(string, nat) externals" where
  "example_externals =
     \<lparr>NULL_ID = snippet_id ''null'', empty_translation = [], translated = (\<lambda>t. t),
      legacy_hash = (\<lambda>t. if t = [] then None else Some (int (length t))),
      rng_bits = (\<lambda>g. (word_of_nat g, Suc g)),
      uniform_int = (\<lambda>seed lo hi. lo + unat seed mod (hi - lo + 1)),
      remainder_first = (\<lambda>str g. True)\<rparr>"

definition example_entry :: "(string, nat) JsonObject" where
  "example_entry =
     \<lparr>jo_text = Some ''some text'', jo_id = Some (snippet_id ''x''),
      jo_effect_on_examine = Some 7, jo_name = Some ''a name''\<rparr>"

definition example_library :: "(string, nat) snippet_library" where
  "example_library =
     run_calls example_externals
       [Add_snippet_from_json ''<c>'' example_entry,
        Add_snippets_from_json ''<c>'' [JsonString (Some ''plain'')]]
       empty_library"

definition example_tagged_library :: "(string, nat) snippet_library" where
  "example_tagged_library =
     run_calls example_externals
       [Add_snippets_from_json ''<a>'' [JsonString (Some ''<b>'')],
        Add_snippets_from_json ''<b>'' [JsonString (Some ''Y'')]]
       empty_library"

definition example_order_library :: "(string, nat) snippet_library" where
  "example_order_library =
     run_calls example_externals
       [Add_snippets_from_json ''<w>'' [JsonString (Some ''m<n>'')],
        Add_snippets_from_json ''<n>'' [JsonString (Some ''0''), JsonString (Some ''1'')]]
       empty_library"

definition example_plain_library :: "(string, nat) snippet_library" where
  "example_plain_library =
     run_calls example_externals
       [Add_snippets_from_json ''a'' [JsonString (Some ''<b>'')],
        Add_snippets_from_json ''b'' [JsonString (Some ''Y'')]]
       empty_library"

section \<open>Auxiliary facts\<close>

subsection \<open>The registry invariant\<close>

lemma inv_reset: "registry_inv (l\<lparr>hash_to_id_migration := h\<rparr>) = registry_inv l"
  by (simp add: registry_inv_def)

lemma inv_no_id: "registry_inv l \<Longrightarrow> registry_inv (emplace_back_no_id category t l)"
  by (auto simp: registry_inv_def emplace_back_no_id_def Let_def at_category_def
        split: option.splits if_splits)

lemma inv_add:
  "registry_inv l \<Longrightarrow> registry_inv (snd (add_snippet_from_json ext category jo l))"
  by (auto simp: registry_inv_def add_snippet_from_json_def Let_def emplace_back_id_def
        emplace_back_no_id_def at_category_def update_conv' split: option.splits if_splits)

lemma inv_entries:
  "registry_inv l \<Longrightarrow> registry_inv (snd (add_entries ext category jarr l))"
proof (induction ext category jarr l rule: add_entries.induct)
  case (4 ext category jo rest l)
  show ?case
  proof (cases "add_snippet_from_json ext category jo l")
    case (Pair r l')
    with inv_add[OF "4.prems"] have i: "registry_inv l'" by (metis snd_conv)
    show ?thesis
    proof (cases r)
      case (Inl e)
      with Pair i show ?thesis by simp
    next
      case (Inr u)
      with Pair i "4.IH" show ?thesis by simp
    qed
  qed
qed (simp_all add: inv_no_id)

lemma inv_step: "registry_inv l \<Longrightarrow> registry_inv (call_step ext c l)"
proof (cases c)
  case (Load_snippet jsobj)
  assume "registry_inv l"
  then show ?thesis using Load_snippet
    by (auto simp: load_snippet_def Let_def add_snippets_from_json_def inv_reset inv_entries
          inv_add split: option.splits)
next
  case (Migrate_hash_to_id h)
  assume "registry_inv l"
  then show ?thesis using Migrate_hash_to_id
    by (simp add: migrate_hash_to_id_def Let_def inv_reset)
next
  case Clear_snippets
  then show ?thesis by (simp add: clear_snippets_def registry_inv_def)
qed (simp_all add: inv_add inv_entries add_snippets_from_json_def inv_reset)

lemma inv_empty: "registry_inv empty_library"
  by (simp add: registry_inv_def empty_library_def)

lemma inv_run: "registry_inv l \<Longrightarrow> registry_inv (run_calls ext calls l)"
  unfolding run_calls_def by (induction calls arbitrary: l) (simp_all add: inv_step)

subsection \<open>Failing additions\<close>

lemma snd_add_error:
  "fst (add_snippet_from_json ext category jo l) = Inl e \<Longrightarrow>
   snd (add_snippet_from_json ext category jo l) = l\<lparr>hash_to_id_migration := None\<rparr>"
  by (auto simp: add_snippet_from_json_def Let_def split: option.splits if_splits)

subsection \<open>The migration table\<close>

lemma build_keeps: "m h = Some i \<Longrightarrow> build_migration ext xs m h = Some i"
  by (induction ext xs m rule: build_migration.induct) (auto split: option.splits)

lemma build_sound:
  "build_migration ext xs m h = Some i \<Longrightarrow>
   m h = Some i \<or> (\<exists>t. (i, t) \<in> set xs \<and> legacy_hash ext t = Some h)"
proof (induction ext xs m rule: build_migration.induct)
  case (1 ext m)
  then show ?case by simp
next
  case (2 ext j t0 rest m)
  from "2.IH"[OF "2.prems"[simplified]] show ?case
    by (auto split: option.splits if_splits)
qed

lemma build_complete:
  "(i, t) \<in> set xs \<Longrightarrow> legacy_hash ext t = Some h \<Longrightarrow>
   \<exists>j. build_migration ext xs m h = Some j"
proof (induction ext xs m rule: build_migration.induct)
  case (1 ext m)
  then show ?case by simp
next
  case (2 ext j t0 rest m)
  show ?case
  proof (cases "(i, t) = (j, t0)")
    case True
    with "2.prems" show ?thesis by (cases "m h") (auto simp: build_keeps)
  next
    case False
    with "2.prems" "2.IH" show ?thesis by auto
  qed
qed

lemma resolves_built:
  assumes "distinct (map fst (snippets_by_id l))"
  shows "resolves_hash ext l h
           (case build_migration ext (snippets_by_id l) Map.empty h of
              None \<Rightarrow> NULL_ID ext
            | Some i \<Rightarrow> i)"
proof (cases "list_ex (\<lambda>(i, t). legacy_hash ext t = Some h) (snippets_by_id l)")
  case True
  then obtain i t where "(i, t) \<in> set (snippets_by_id l)" "legacy_hash ext t = Some h"
    by (auto simp: list_ex_iff)
  from build_complete[OF this] obtain j where
    j: "build_migration ext (snippets_by_id l) Map.empty h = Some j" by blast
  from build_sound[OF j] obtain t' where
    t': "(j, t') \<in> set (snippets_by_id l)" "legacy_hash ext t' = Some h" by auto
  with assms have "map_of (snippets_by_id l) j = Some t'" by simp
  with True j t'(2) show ?thesis
    by (simp add: resolves_hash_def get_snippet_by_id_def)
next
  case False
  then have "build_migration ext (snippets_by_id l) Map.empty h = None"
    using build_sound[of ext "snippets_by_id l" Map.empty h]
    by (cases "build_migration ext (snippets_by_id l) Map.empty h") (auto simp: list_ex_iff)
  with False show ?thesis by (simp add: resolves_hash_def)
qed

lemma migrate_resolves:
  "migration_valid ext l \<Longrightarrow> resolves_hash ext l h (fst (migrate_hash_to_id ext h l))"
  using resolves_built[of l ext h]
  by (auto simp: migration_valid_def migrate_hash_to_id_def Let_def split: option.splits)

lemma valid_migrate:
  "migration_valid ext l \<Longrightarrow> migration_valid ext (snd (migrate_hash_to_id ext h l))"
  by (auto simp: migration_valid_def migrate_hash_to_id_def Let_def split: option.splits)

lemma migrate_twice:
  "hash_to_id_migration (snd (migrate_hash_to_id ext h l)) \<noteq> None \<and>
   snd (migrate_hash_to_id ext h' (snd (migrate_hash_to_id ext h l)))
     = snd (migrate_hash_to_id ext h l)"
  by (simp add: migrate_hash_to_id_def Let_def)

lemma add_invalidates:
  "hash_to_id_migration (snd (add_snippet_from_json ext category jo l)) = None"
  by (simp add: add_snippet_from_json_def Let_def emplace_back_id_def emplace_back_no_id_def
        split: option.splits)

lemma add_distinct:
  "distinct (map fst (snippets_by_id l)) \<Longrightarrow>
   distinct (map fst (snippets_by_id (snd (add_snippet_from_json ext category jo l))))"
  by (simp add: add_snippet_from_json_def Let_def emplace_back_id_def emplace_back_no_id_def
        distinct_update split: option.splits)

lemma entries_invalid:
  "hash_to_id_migration l = None \<Longrightarrow>
   hash_to_id_migration (snd (add_entries ext category jarr l)) = None"
proof (induction ext category jarr l rule: add_entries.induct)
  case (4 ext category jo rest l)
  then show ?case
    using add_invalidates[of ext category jo l]
    by (cases "add_snippet_from_json ext category jo l") (auto split: sum.splits)
qed (simp_all add: emplace_back_no_id_def Let_def)

lemma entries_distinct:
  "distinct (map fst (snippets_by_id l)) \<Longrightarrow>
   distinct (map fst (snippets_by_id (snd (add_entries ext category jarr l))))"
proof (induction ext category jarr l rule: add_entries.induct)
  case (4 ext category jo rest l)
  then show ?case
    using add_distinct[of l ext category jo]
    by (cases "add_snippet_from_json ext category jo l") (auto split: sum.splits)
qed (simp_all add: emplace_back_no_id_def Let_def)

lemma array_invalidates:
  "hash_to_id_migration (snd (add_snippets_from_json ext category jarr l)) = None"
  by (simp add: add_snippets_from_json_def entries_invalid)

lemma array_distinct:
  "distinct (map fst (snippets_by_id l)) \<Longrightarrow>
   distinct (map fst (snippets_by_id (snd (add_snippets_from_json ext category jarr l))))"
  by (simp add: add_snippets_from_json_def entries_distinct)

lemma load_invalidates: "hash_to_id_migration (snd (load_snippet ext jsobj l)) = None"
  by (simp add: load_snippet_def Let_def array_invalidates add_invalidates
        split: option.splits)

lemma load_distinct:
  "distinct (map fst (snippets_by_id l)) \<Longrightarrow>
   distinct (map fst (snippets_by_id (snd (load_snippet ext jsobj l))))"
  by (simp add: load_snippet_def Let_def array_distinct add_distinct split: option.splits)

lemma valid_step: "migration_valid ext l \<Longrightarrow> migration_valid ext (call_step ext c l)"
proof (cases c)
  case (Migrate_hash_to_id h)
  assume "migration_valid ext l"
  with Migrate_hash_to_id show ?thesis by (simp add: valid_migrate)
next
  case Clear_snippets
  then show ?thesis by (simp add: migration_valid_def clear_snippets_def)
qed (simp_all add: migration_valid_def load_invalidates load_distinct array_invalidates
       array_distinct add_invalidates add_distinct)

lemma valid_empty: "migration_valid ext empty_library"
  by (simp add: migration_valid_def empty_library_def)

lemma valid_run: "migration_valid ext l \<Longrightarrow> migration_valid ext (run_calls ext calls l)"
  unfolding run_calls_def by (induction calls arbitrary: l) (simp_all add: valid_step)

subsection \<open>Searching a string, and drawing from a category\<close>

lemma find_in_None: "find_in c xs i = None \<longleftrightarrow> c \<notin> set xs"
  by (induction xs arbitrary: i) auto

lemma random_none:
  "no_snippet_available l cat \<Longrightarrow> random_from_category ext l cat seed = None"
  by (auto simp: no_snippet_available_def random_from_category_def split: option.splits)

lemma random_single:
  assumes "uniform_int_in_range ext" and "contains_single_text ext l cat s"
  shows "\<exists>t. random_from_category ext l cat seed = Some t \<and> translated ext t = s"
proof -
  from assms(1) have z: "uniform_int ext seed 0 0 = 0"
    unfolding uniform_int_in_range_def by (metis le_zero_eq order_refl)
  from assms(2) show ?thesis
    by (auto simp: contains_single_text_def random_from_category_def z
          split: option.splits list.splits)
qed

lemma find_char_samples:
  "find_char ''<a>'' CHR ''<'' 0 = Some 0"
  "find_char ''<a>'' CHR ''>'' (Suc 0) = Some 2"
  "find_char ''<b>'' CHR ''<'' 0 = Some 0"
  "find_char ''<b>'' CHR ''>'' (Suc 0) = Some 2"
  "find_char ''Y'' CHR ''<'' 0 = None"
  "find_char [] CHR ''<'' 0 = None"
  by (simp_all add: find_char_def)

subsection \<open>Expansion\<close>

lemma expand_unresolved:
  "\<forall>tag \<in> set (scan_tags str). no_snippet_available l tag \<Longrightarrow>
   \<exists>g'. expand ext l str g = Some (str, g')"
proof (induction "length str" arbitrary: str g rule: less_induct)
  case less
  show ?case
  proof (cases "find_char str CHR ''<'' 0")
    case None
    then show ?thesis by (subst expand.simps) simp
  next
    case (Some tag_begin)
    note b = this
    show ?thesis
    proof (cases "find_char str CHR ''>'' (tag_begin + 1)")
      case None
      with b show ?thesis by (subst expand.simps) simp
    next
      case (Some tag_end)
      note e = this
      obtain seed g1 where r: "rng_bits ext g = (seed, g1)" by (cases "rng_bits ext g")
      have tags: "scan_tags str =
          substr str tag_begin (tag_end - tag_begin + 1) # scan_tags (drop (tag_end + 1) str)"
        using b e by (subst scan_tags.simps) simp
      from less.prems tags
      have none: "random_from_category ext l
                    (substr str tag_begin (tag_end - tag_begin + 1)) seed = None"
        by (simp add: random_none)
      from find_char_bounds[OF e] have "tag_end < length str" by simp
      then have shorter: "length (drop (tag_end + 1) str) < length str" by simp
      from less.hyps[OF shorter, of g1] less.prems tags obtain g2 where
        "expand ext l (drop (tag_end + 1) str) g1 = Some (drop (tag_end + 1) str, g2)"
        by auto
      with b e r none show ?thesis
        by (subst expand.simps) (simp add: random_from_category_rng_def substr_def)
    qed
  qed
qed

lemma expand_tag_drawn:
  assumes "find_char str CHR ''<'' 0 = Some tag_begin"
    and "find_char str CHR ''>'' (tag_begin + 1) = Some tag_end"
    and "rng_bits ext g = (seed, g1)"
    and "random_from_category ext l (substr str tag_begin (tag_end - tag_begin + 1)) seed
           = Some replacement"
  shows "expand ext l str g =
     (if remainder_first ext str g
      then Option.bind (expand ext l (drop (tag_end + 1) str) g1)
             (\<lambda>(rest, g2).
                Option.bind (expand ext l (translated ext replacement) g2)
                  (\<lambda>(middle, g3). Some (substr str 0 tag_begin @ middle @ rest, g3)))
      else Option.bind (expand ext l (translated ext replacement) g1)
             (\<lambda>(middle, g2).
                Option.bind (expand ext l (drop (tag_end + 1) str) g2)
                  (\<lambda>(rest, g3). Some (substr str 0 tag_begin @ middle @ rest, g3))))"
  using assms by (subst expand.simps) (simp add: random_from_category_rng_def)

lemma expand_single_Y:
  assumes "uniform_int_in_range ext" and "contains_single_text ext l ''<b>'' ''Y''"
  shows "\<exists>g'. expand ext l ''<b>'' g = Some (''Y'', g')"
proof -
  obtain s g1 where r: "rng_bits ext g = (s, g1)" by (cases "rng_bits ext g")
  from random_single[OF assms, of s] obtain tb where
    tb: "random_from_category ext l ''<b>'' s = Some tb" "translated ext tb = ''Y''"
    by blast
  have y: "expand ext l ''Y'' g = Some (''Y'', g)" for g
    by (subst expand.simps) (simp add: find_char_samples)
  have e: "expand ext l [] g = Some ([], g)" for g
    by (subst expand.simps) (simp add: find_char_samples)
  have "expand ext l ''<b>'' g = Some (''Y'', g1)"
    by (subst expand.simps)
      (simp add: find_char_samples random_from_category_rng_def r substr_def tb y e)
  then show ?thesis by blast
qed

subsection \<open>The sample values\<close>

lemmas run_defs =
  empty_library_def run_calls_def load_snippet_def add_snippets_from_json_def
  add_snippet_from_json_def clear_snippets_def emplace_back_id_def emplace_back_no_id_def
  at_category_def

lemma example_uniform_int_in_range: "uniform_int_in_range example_externals"
proof -
  have "lo + unat seed mod (hi - lo + 1) \<le> hi" if "lo \<le> hi"
    for seed :: "32 word" and lo hi :: nat
  proof -
    have "unat seed mod (hi - lo + 1) < hi - lo + 1" by simp
    with that show ?thesis by linarith
  qed
  then show ?thesis by (simp add: uniform_int_in_range_def example_externals_def)
qed

lemma example_library_fields:
  "snippets_by_category example_library
     = [''<c>'' \<mapsto> \<lparr>ids = [snippet_id ''x''], no_id = [''plain'']\<rparr>]"
  "snippets_by_id example_library = [(snippet_id ''x'', ''some text'')]"
  "EOC_by_id example_library = [snippet_id ''x'' \<mapsto> 7]"
  "name_by_id example_library = [snippet_id ''x'' \<mapsto> ''a name'']"
  "hash_to_id_migration example_library = None"
  by (simp_all add: example_library_def example_entry_def example_externals_def run_defs)

lemma example_tagged_fields:
  "snippets_by_category example_tagged_library
     = [''<a>'' \<mapsto> \<lparr>ids = [], no_id = [''<b>'']\<rparr>, ''<b>'' \<mapsto> \<lparr>ids = [], no_id = [''Y'']\<rparr>]"
  "snippets_by_id example_tagged_library = []"
  by (simp_all add: example_tagged_library_def example_externals_def run_defs)

lemma example_order_fields:
  "snippets_by_category example_order_library
     = [''<w>'' \<mapsto> \<lparr>ids = [], no_id = [''m<n>'']\<rparr>,
        ''<n>'' \<mapsto> \<lparr>ids = [], no_id = [''0'', ''1'']\<rparr>]"
  "snippets_by_id example_order_library = []"
  by (simp_all add: example_order_library_def example_externals_def run_defs)

lemma example_plain_fields:
  "snippets_by_category example_plain_library
     = [''a'' \<mapsto> \<lparr>ids = [], no_id = [''<b>'']\<rparr>, ''b'' \<mapsto> \<lparr>ids = [], no_id = [''Y'']\<rparr>]"
  "snippets_by_id example_plain_library = []"
  by (simp_all add: example_plain_library_def example_externals_def run_defs)

subsection \<open>Listing\<close>

lemma listing_known:
  "snippets_by_category l cat = Some cs \<Longrightarrow>
   get_snippets_by_category ext l cat add_null_id
     = (if add_null_id \<and> ids cs \<noteq> [] then [(NULL_ID ext, [])] else [])
       @ map (\<lambda>i. (i, translated ext (get_snippet_ref_by_id ext l i))) (ids cs)"
  by (simp add: get_snippets_by_category_def has_category_def)

lemma listing_unknown:
  "snippets_by_category l cat = None \<Longrightarrow> get_snippets_by_category ext l cat add_null_id = []"
  by (simp add: get_snippets_by_category_def has_category_def)

lemma listing_after_no_id:
  "get_snippets_by_category ext (emplace_back_no_id cat t l) cat add_null_id
     = get_snippets_by_category ext l cat add_null_id"
  by (cases "snippets_by_category l cat")
    (simp_all add: get_snippets_by_category_def has_category_def emplace_back_no_id_def
       at_category_def Let_def get_snippet_ref_by_id_def)

lemma listing_after_id:
  assumes inv: "registry_inv l"
    and jo: "jo_text jo = Some t" "jo_id jo = Some i"
    and ok: "fst (add_snippet_from_json ext cat jo l) = Inr ()"
  shows "get_snippets_by_category ext (snd (add_snippet_from_json ext cat jo l)) cat False
           = get_snippets_by_category ext l cat False @ [(i, translated ext t)]"
proof -
  from jo ok have fresh: "map_of (snippets_by_id l) i = None"
    by (auto simp: add_snippet_from_json_def Let_def split: if_splits)
  have old: "get_snippet_ref_by_id ext
               (snd (add_snippet_from_json ext cat jo l)) j = get_snippet_ref_by_id ext l j"
    if "map_of (snippets_by_id l) j \<noteq> None" for j
    using that jo ok fresh
    by (auto simp: add_snippet_from_json_def Let_def get_snippet_ref_by_id_def
          emplace_back_id_def update_conv' split: if_splits option.splits)
  have new: "get_snippet_ref_by_id ext (snd (add_snippet_from_json ext cat jo l)) i = t"
    using jo ok
    by (auto simp: add_snippet_from_json_def Let_def get_snippet_ref_by_id_def
          emplace_back_id_def update_conv' split: if_splits option.splits)
  have bucket: "snippets_by_category (snd (add_snippet_from_json ext cat jo l)) cat
      = Some ((at_category (snippets_by_category l) cat)
                \<lparr>ids := ids (at_category (snippets_by_category l) cat) @ [i]\<rparr>)"
    using jo ok
    by (auto simp: add_snippet_from_json_def Let_def emplace_back_id_def
          split: if_splits option.splits)
  show ?thesis
  proof (cases "snippets_by_category l cat")
    case None
    with bucket new show ?thesis
      by (simp add: listing_known listing_unknown at_category_def)
  next
    case (Some cs)
    with inv have "\<forall>j \<in> set (ids cs). map_of (snippets_by_id l) j \<noteq> None"
      by (auto simp: registry_inv_def)
    with old have "\<forall>j \<in> set (ids cs).
        get_snippet_ref_by_id ext (snd (add_snippet_from_json ext cat jo l)) j
          = get_snippet_ref_by_id ext l j"
      by blast
    with Some bucket new show ?thesis
      by (simp add: listing_known at_category_def)
  qed
qed

section \<open>The properties\<close>

text \<open>
  C1. After \<^verbatim>\<open>clear()\<close> all four maps are empty and the migration table is absent.
  The code empties \<^verbatim>\<open>snippets_by_category\<close> and \<^verbatim>\<open>snippets_by_id\<close> and resets the
  migration table, and leaves \<^verbatim>\<open>EOC_by_id\<close> and \<^verbatim>\<open>name_by_id\<close> as they are: after
  loading the sample entry and clearing, the effect and the name of its id are still
  there although the id is no longer known, and loading the id again without an
  effect leaves it with the old one.
\<close>

theorem clear_snippets_keeps_effects_and_names:
  "snippets_by_category (clear_snippets example_library) = Map.empty
   \<and> snippets_by_id (clear_snippets example_library) = []
   \<and> hash_to_id_migration (clear_snippets example_library) = None
   \<and> \<not> has_snippet_with_id (clear_snippets example_library) (snippet_id ''x'')
   \<and> get_EOC_by_id (clear_snippets example_library) (snippet_id ''x'') = Some 7
   \<and> get_name_by_id (clear_snippets example_library) (snippet_id ''x'') = Some ''a name''
   \<and> get_EOC_by_id
        (snd (add_snippet_from_json example_externals ''<c>''
                (example_entry\<lparr>jo_effect_on_examine := None\<rparr>)
                (clear_snippets example_library)))
        (snippet_id ''x'') = Some 7"
  by (simp add: clear_snippets_def example_library_fields get_EOC_by_id_def get_name_by_id_def
        has_snippet_with_id_def add_snippet_from_json_def emplace_back_id_def at_category_def
        Let_def example_entry_def example_externals_def)

text \<open>
  C2. In every library a program can reach, \<^verbatim>\<open>migrate_hash_to_id\<close> returns for each
  hash an id whose text in the current \<^verbatim>\<open>snippets_by_id\<close> has that legacy hash, and
  the null id when there is none (texts without a legacy hash are passed over); this
  holds whatever the order in which the table is gone through (last line). Each
  of the three loading functions leaves the migration table absent, so a migration
  after a load, also one that follows an earlier migration, answers from the entries
  as they are after the load. A migration leaves a table behind, and the next
  migration changes nothing: the table is built once until it is reset.
\<close>

theorem migrate_hash_to_id_resolves:
  "(let l = run_calls ext calls empty_library in
      resolves_hash ext l h (fst (migrate_hash_to_id ext h l))
    \<and> hash_to_id_migration (snd (load_snippet ext jsobj l)) = None
    \<and> hash_to_id_migration (snd (add_snippets_from_json ext category jarr l)) = None
    \<and> hash_to_id_migration (snd (add_snippet_from_json ext category jo l)) = None
    \<and> (let l1 = snd (load_snippet ext jsobj (snd (migrate_hash_to_id ext h0 l)))
        in resolves_hash ext l1 h (fst (migrate_hash_to_id ext h l1)))
    \<and> (let l2 = snd (migrate_hash_to_id ext h l)
        in hash_to_id_migration l2 \<noteq> None \<and> snd (migrate_hash_to_id ext h' l2) = l2))
   \<and> (distinct (map fst (snippets_by_id l')) \<and> hash_to_id_migration l' = None
        \<longrightarrow> resolves_hash ext l' h (fst (migrate_hash_to_id ext h l')))"
proof -
  have v: "migration_valid ext (run_calls ext calls empty_library)"
    by (rule valid_run[OF valid_empty])
  have "migration_valid ext (call_step ext (Load_snippet jsobj)
          (call_step ext (Migrate_hash_to_id h0) (run_calls ext calls empty_library)))"
    by (intro valid_step v)
  then have v1: "migration_valid ext
      (snd (load_snippet ext jsobj
              (snd (migrate_hash_to_id ext h0 (run_calls ext calls empty_library)))))"
    by simp
  show ?thesis
    unfolding Let_def
    by (intro conjI impI migrate_resolves v v1 load_invalidates array_invalidates
          add_invalidates conjunct1[OF migrate_twice] conjunct2[OF migrate_twice])
      (simp add: migration_valid_def)
qed

theorem migrate_hash_to_id_resolves_witness:
  "fst (migrate_hash_to_id example_externals 9 example_library) = snippet_id ''x''
   \<and> resolves_hash example_externals example_library 9 (snippet_id ''x'')
   \<and> fst (migrate_hash_to_id example_externals 5 example_library) = snippet_id ''null''
   \<and> resolves_hash example_externals example_library 5 (snippet_id ''null'')
   \<and> hash_to_id_migration
        (snd (add_snippet_from_json example_externals ''<c>'' example_entry
                (snd (migrate_hash_to_id example_externals 9 example_library)))) = None
   \<and> distinct (map fst (snippets_by_id example_library))
   \<and> hash_to_id_migration example_library = None"
  using migrate_hash_to_id_resolves
          [where ext = example_externals and h = 9 and l' = example_library
             and calls = "[Add_snippet_from_json ''<c>'' example_entry,
                           Add_snippets_from_json ''<c>'' [JsonString (Some ''plain'')]]"]
        migrate_hash_to_id_resolves
          [where ext = example_externals and h = 5 and l' = example_library
             and calls = "[Add_snippet_from_json ''<c>'' example_entry,
                           Add_snippets_from_json ''<c>'' [JsonString (Some ''plain'')]]"]
  by (simp add: example_library_def[symmetric] migrate_hash_to_id_def example_library_fields
        add_invalidates resolves_hash_def get_snippet_by_id_def example_externals_def)

text \<open>
  C3, as amended. When the string has a complete tag and the draw from the category
  the tag names gives a text, what \<^verbatim>\<open>expand\<close> returns is the part before the tag,
  an expansion of the translated text and an expansion of what follows the tag, joined
  in this order. The two expansions run one after the other in the order the
  implementation takes (first line below): the first from the generator state the draw
  left, the second from the state the first left. Whatever that order, a result of
  \<^verbatim>\<open>expand\<close> is made of a result of each of the two (second line), and when neither
  the text nor the rest of the string holds a tag with a snippet, \<^verbatim>\<open>expand\<close> returns
  the part before the tag, the text and the rest (third line). The name of the
  category is the tag with its two delimiters: when the category \<open><a>\<close> holds the single
  text \<open><b>\<close> and the category \<open><b>\<close> the single text \<open>Y\<close>, expanding \<open><a>\<close>
  gives \<open>Y\<close>.
\<close>

theorem expand_replaces_tag:
  "(find_char str CHR ''<'' 0 = Some tag_begin
    \<and> find_char str CHR ''>'' (tag_begin + 1) = Some tag_end
    \<and> rng_bits ext g = (seed, ga)
    \<and> random_from_category ext l (substr str tag_begin (tag_end - tag_begin + 1)) seed
          = Some replacement
    \<longrightarrow>
      expand ext l str g =
        (if remainder_first ext str g
         then Option.bind (expand ext l (drop (tag_end + 1) str) ga)
                (\<lambda>(rest, g2).
                   Option.bind (expand ext l (translated ext replacement) g2)
                     (\<lambda>(middle, g3). Some (substr str 0 tag_begin @ middle @ rest, g3)))
         else Option.bind (expand ext l (translated ext replacement) ga)
                (\<lambda>(middle, g2).
                   Option.bind (expand ext l (drop (tag_end + 1) str) g2)
                     (\<lambda>(rest, g3). Some (substr str 0 tag_begin @ middle @ rest, g3))))
    \<and> (\<forall>out g'. expand ext l str g = Some (out, g') \<longrightarrow>
          (\<exists>middle rest g2.
             out = substr str 0 tag_begin @ middle @ rest
             \<and> (expand ext l (translated ext replacement) ga = Some (middle, g2)
                  \<and> expand ext l (drop (tag_end + 1) str) g2 = Some (rest, g')
                \<or> expand ext l (drop (tag_end + 1) str) ga = Some (rest, g2)
                  \<and> expand ext l (translated ext replacement) g2 = Some (middle, g'))))
    \<and> ((\<forall>tag \<in> set (scan_tags (translated ext replacement)). no_snippet_available l tag)
        \<and> (\<forall>tag \<in> set (scan_tags (drop (tag_end + 1) str)). no_snippet_available l tag)
        \<longrightarrow> map_option fst (expand ext l str g)
              = Some (substr str 0 tag_begin @ translated ext replacement
                        @ drop (tag_end + 1) str)))
   \<and> (uniform_int_in_range ext
      \<and> contains_single_text ext l ''<a>'' ''<b>''
      \<and> contains_single_text ext l ''<b>'' ''Y''
      \<longrightarrow> map_option fst (expand ext l ''<a>'' gi) = Some ''Y'')"
proof (intro conjI impI allI)
  assume h: "find_char str CHR ''<'' 0 = Some tag_begin
    \<and> find_char str CHR ''>'' (tag_begin + 1) = Some tag_end
    \<and> rng_bits ext g = (seed, ga)
    \<and> random_from_category ext l (substr str tag_begin (tag_end - tag_begin + 1)) seed
          = Some replacement"
  then show eq: "expand ext l str g =
        (if remainder_first ext str g
         then Option.bind (expand ext l (drop (tag_end + 1) str) ga)
                (\<lambda>(rest, g2).
                   Option.bind (expand ext l (translated ext replacement) g2)
                     (\<lambda>(middle, g3). Some (substr str 0 tag_begin @ middle @ rest, g3)))
         else Option.bind (expand ext l (translated ext replacement) ga)
                (\<lambda>(middle, g2).
                   Option.bind (expand ext l (drop (tag_end + 1) str) g2)
                     (\<lambda>(rest, g3). Some (substr str 0 tag_begin @ middle @ rest, g3))))"
    by (elim conjE) (rule expand_tag_drawn, assumption+)
  {
    fix out g'
    assume r: "expand ext l str g = Some (out, g')"
    show "\<exists>middle rest g2.
             out = substr str 0 tag_begin @ middle @ rest
             \<and> (expand ext l (translated ext replacement) ga = Some (middle, g2)
                  \<and> expand ext l (drop (tag_end + 1) str) g2 = Some (rest, g')
                \<or> expand ext l (drop (tag_end + 1) str) ga = Some (rest, g2)
                  \<and> expand ext l (translated ext replacement) g2 = Some (middle, g'))"
    proof (cases "remainder_first ext str g")
      case True
      with eq r have "Option.bind (expand ext l (drop (tag_end + 1) str) ga)
                (\<lambda>(rest, g2).
                   Option.bind (expand ext l (translated ext replacement) g2)
                     (\<lambda>(middle, g3). Some (substr str 0 tag_begin @ middle @ rest, g3)))
              = Some (out, g')"
        by simp
      then show ?thesis by (auto simp: bind_eq_Some_conv)
    next
      case False
      with eq r have "Option.bind (expand ext l (translated ext replacement) ga)
                (\<lambda>(middle, g2).
                   Option.bind (expand ext l (drop (tag_end + 1) str) g2)
                     (\<lambda>(rest, g3). Some (substr str 0 tag_begin @ middle @ rest, g3)))
              = Some (out, g')"
        by simp
      then show ?thesis by (auto simp: bind_eq_Some_conv)
    qed
  }
  {
    assume u: "(\<forall>tag \<in> set (scan_tags (translated ext replacement)). no_snippet_available l tag)
        \<and> (\<forall>tag \<in> set (scan_tags (drop (tag_end + 1) str)). no_snippet_available l tag)"
    show "map_option fst (expand ext l str g)
              = Some (substr str 0 tag_begin @ translated ext replacement
                        @ drop (tag_end + 1) str)"
    proof (cases "remainder_first ext str g")
      case True
      from u expand_unresolved[of "drop (tag_end + 1) str" l ext ga] obtain g2 where
        r: "expand ext l (drop (tag_end + 1) str) ga = Some (drop (tag_end + 1) str, g2)"
        by blast
      from u expand_unresolved[of "translated ext replacement" l ext g2] obtain g3 where
        "expand ext l (translated ext replacement) g2 = Some (translated ext replacement, g3)"
        by blast
      with r True eq show ?thesis by simp
    next
      case False
      from u expand_unresolved[of "translated ext replacement" l ext ga] obtain g2 where
        m: "expand ext l (translated ext replacement) ga = Some (translated ext replacement, g2)"
        by blast
      from u expand_unresolved[of "drop (tag_end + 1) str" l ext g2] obtain g3 where
        "expand ext l (drop (tag_end + 1) str) g2 = Some (drop (tag_end + 1) str, g3)"
        by blast
      with m False eq show ?thesis by simp
    qed
  }
next
  assume h: "uniform_int_in_range ext
      \<and> contains_single_text ext l ''<a>'' ''<b>''
      \<and> contains_single_text ext l ''<b>'' ''Y''"
  obtain s1 ga where r1: "rng_bits ext gi = (s1, ga)" by (cases "rng_bits ext gi")
  from h random_single[of ext l "''<a>''" "''<b>''" s1] obtain ta where
    ta: "random_from_category ext l ''<a>'' s1 = Some ta" "translated ext ta = ''<b>''"
    by blast
  from h expand_single_Y[of ext l ga] obtain g2 where
    b: "expand ext l ''<b>'' ga = Some (''Y'', g2)" by blast
  have e: "expand ext l [] g = Some ([], g)" for g
    by (subst expand.simps) (simp add: find_char_samples)
  show "map_option fst (expand ext l ''<a>'' gi) = Some ''Y''"
    by (subst expand.simps)
      (simp add: find_char_samples random_from_category_rng_def r1 substr_def ta b e)
qed

theorem expand_replaces_tag_witness:
  "find_char ''<w>n<n>'' CHR ''<'' 0 = Some 0
   \<and> find_char ''<w>n<n>'' CHR ''>'' 1 = Some 2
   \<and> rng_bits example_externals 0 = (0, 1)
   \<and> random_from_category example_externals example_order_library ''<w>'' 0 = Some ''m<n>''
   \<and> remainder_first example_externals ''<w>n<n>'' 0
   \<and> expand example_externals example_order_library ''n<n>'' 1 = Some (''n1'', 2)
   \<and> expand example_externals example_order_library ''m<n>'' 2 = Some (''m0'', 3)
   \<and> expand example_externals example_order_library ''<w>n<n>'' 0 = Some (''m0n1'', 3)
   \<and> expand (example_externals\<lparr>remainder_first := \<lambda>str g. False\<rparr>) example_order_library
        ''<w>n<n>'' 0 = Some (''m1n0'', 3)
   \<and> find_char ''p<n>q'' CHR ''<'' 0 = Some 1
   \<and> find_char ''p<n>q'' CHR ''>'' 2 = Some 3
   \<and> random_from_category example_externals example_order_library ''<n>'' 0 = Some ''0''
   \<and> scan_tags ''0'' = []
   \<and> scan_tags ''q'' = []
   \<and> map_option fst (expand example_externals example_order_library ''p<n>q'' 0)
        = Some ''p0q''
   \<and> uniform_int_in_range example_externals
   \<and> contains_single_text example_externals example_tagged_library ''<a>'' ''<b>''
   \<and> contains_single_text example_externals example_tagged_library ''<b>'' ''Y''
   \<and> map_option fst (expand example_externals example_tagged_library ''<a>'' 0) = Some ''Y''"
  using expand_replaces_tag
          [where str = "''<w>n<n>''" and tag_begin = 0 and tag_end = 2
             and ext = example_externals and g = 0 and seed = 0 and ga = 1
             and l = example_order_library and replacement = "''m<n>''" and gi = 0]
        expand_replaces_tag
          [where str = "''<w>n<n>''" and tag_begin = 0 and tag_end = 2
             and ext = "example_externals\<lparr>remainder_first := \<lambda>str g. False\<rparr>"
             and g = 0 and seed = 0 and ga = 1
             and l = example_order_library and replacement = "''m<n>''" and gi = 0]
        expand_replaces_tag
          [where str = "''p<n>q''" and tag_begin = 1 and tag_end = 3
             and ext = example_externals and g = 0 and seed = 0 and ga = 1
             and l = example_order_library and replacement = "''0''" and gi = 0]
        expand_replaces_tag
          [where str = "''p<n>q''" and tag_begin = 1 and tag_end = 3
             and ext = example_externals and g = 0 and seed = 0 and ga = 1
             and l = example_tagged_library and replacement = "''0''" and gi = 0]
        example_uniform_int_in_range
  by (simp add: expand.simps scan_tags.simps find_char_def substr_def
        random_from_category_rng_def random_from_category_def contains_single_text_def
        example_tagged_fields example_order_fields example_externals_def
        numeral_2_eq_2[symmetric])

theorem expand_plain_category_counterexample:
  "contains_single_text example_externals example_plain_library ''a'' ''<b>''
   \<and> contains_single_text example_externals example_plain_library ''b'' ''Y''
   \<and> map_option fst (expand example_externals example_plain_library ''<a>'' 0) = Some ''<a>''
   \<and> map_option fst (expand example_externals example_plain_library ''<a>'' 0) \<noteq> Some ''Y''"
  by (simp add: expand.simps find_char_def substr_def random_from_category_rng_def
        random_from_category_def contains_single_text_def example_plain_fields
        example_externals_def)

text \<open>
  C4. \<^verbatim>\<open>expand\<close> returns its input as it is when the input has no \<open><\<close>, when no
  \<open>>\<close> follows the first \<open><\<close>, and more generally when every tag met while scanning
  names a category that is unknown or empty.
\<close>

theorem expand_identity_without_snippets:
  "(CHR ''<'' \<notin> set str \<longrightarrow> expand ext l str g = Some (str, g))
   \<and> (find_char str CHR ''<'' 0 = Some tag_begin \<and> CHR ''>'' \<notin> set (drop (tag_begin + 1) str)
        \<longrightarrow> expand ext l str g = Some (str, g))
   \<and> ((\<forall>tag \<in> set (scan_tags str). no_snippet_available l tag)
        \<longrightarrow> map_option fst (expand ext l str g) = Some str)"
proof (intro conjI impI)
  assume "CHR ''<'' \<notin> set str"
  then have "find_char str CHR ''<'' 0 = None" by (simp add: find_char_def find_in_None)
  then show "expand ext l str g = Some (str, g)" by (subst expand.simps) simp
next
  assume a: "find_char str CHR ''<'' 0 = Some tag_begin
               \<and> CHR ''>'' \<notin> set (drop (tag_begin + 1) str)"
  then have "find_char str CHR ''>'' (tag_begin + 1) = None"
    by (simp add: find_char_def find_in_None)
  with a show "expand ext l str g = Some (str, g)" by (subst expand.simps) simp
next
  assume "\<forall>tag \<in> set (scan_tags str). no_snippet_available l tag"
  from expand_unresolved[OF this, of ext g]
  show "map_option fst (expand ext l str g) = Some str" by auto
qed

theorem expand_identity_without_snippets_witness:
  "CHR ''<'' \<notin> set ''no tags here''
   \<and> expand example_externals example_library ''no tags here'' 0 = Some (''no tags here'', 0)
   \<and> find_char ''a<b'' CHR ''<'' 0 = Some 1
   \<and> CHR ''>'' \<notin> set (drop 2 ''a<b'')
   \<and> expand example_externals example_library ''a<b'' 0 = Some (''a<b'', 0)
   \<and> scan_tags ''x<q>y<r>'' = [''<q>'', ''<r>'']
   \<and> no_snippet_available example_library ''<q>''
   \<and> no_snippet_available example_library ''<r>''
   \<and> map_option fst (expand example_externals example_library ''x<q>y<r>'' 0)
        = Some ''x<q>y<r>''"
  using expand_identity_without_snippets
          [of "''no tags here''" example_externals example_library 0 0]
        expand_identity_without_snippets
          [of "''a<b''" example_externals example_library 0 1]
        expand_identity_without_snippets
          [of "''x<q>y<r>''" example_externals example_library 0 0]
  by (simp add: scan_tags.simps find_char_def substr_def no_snippet_available_def
        example_library_fields)

text \<open>
  C5. The seeded draw is a function of the seed and of the contents of the category
  alone: two libraries that hold the same bucket for the category, and the same texts
  for the ids of that bucket, give the same result for the same seed, whatever else
  they hold. The function returns a value only, so a second call meets the same
  library.
\<close>

theorem random_from_category_deterministic:
  assumes "snippets_by_category l1 cat = snippets_by_category l2 cat"
    and "\<forall>cs. snippets_by_category l1 cat = Some cs \<longrightarrow>
           (\<forall>i \<in> set (ids cs). get_snippet_by_id l1 i = get_snippet_by_id l2 i)"
  shows "random_from_category ext l1 cat seed = random_from_category ext l2 cat seed"
  using assms by (auto simp: random_from_category_def Let_def split: option.splits)

theorem random_from_category_deterministic_witness:
  "snippets_by_category example_library ''<c>''
     = snippets_by_category
         (call_step example_externals (Add_snippets_from_json ''<d>'' [JsonString (Some ''other'')])
            (snd (migrate_hash_to_id example_externals 9 example_library))) ''<c>''
   \<and> get_snippet_by_id example_library (snippet_id ''x'')
       = get_snippet_by_id
           (call_step example_externals (Add_snippets_from_json ''<d>'' [JsonString (Some ''other'')])
              (snd (migrate_hash_to_id example_externals 9 example_library))) (snippet_id ''x'')
   \<and> random_from_category example_externals example_library ''<c>'' 42
       = random_from_category example_externals
           (call_step example_externals (Add_snippets_from_json ''<d>'' [JsonString (Some ''other'')])
              (snd (migrate_hash_to_id example_externals 9 example_library))) ''<c>'' 42
   \<and> random_from_category example_externals example_library ''<c>'' 42 = Some ''some text''"
  using random_from_category_deterministic
          [of example_library "''<c>''"
              "call_step example_externals
                 (Add_snippets_from_json ''<d>'' [JsonString (Some ''other'')])
                 (snd (migrate_hash_to_id example_externals 9 example_library))"
              example_externals 42]
  by (simp add: add_snippets_from_json_def emplace_back_no_id_def at_category_def Let_def
        migrate_hash_to_id_def example_library_fields get_snippet_by_id_def
        random_from_category_def example_externals_def numeral_2_eq_2[symmetric])

text \<open>
  C6. In a library that satisfies the registry invariant, and with a distribution that
  keeps to its bounds, the seeded draw returns nothing exactly when the category is
  unknown or has neither ids nor anonymous texts. Otherwise the index drawn is below
  \<open>n\<close>, the number of ids plus the number of anonymous texts; an index below the number
  of ids gives the text that \<^verbatim>\<open>snippets_by_id\<close> holds for the id at that position,
  which is there, and any other index gives the anonymous text at the index less the
  number of ids.
\<close>

theorem random_from_category_selects:
  assumes "registry_inv l" and "uniform_int_in_range ext"
  shows "(random_from_category ext l cat seed = None \<longleftrightarrow> no_snippet_available l cat)
       \<and> (\<forall>cs. snippets_by_category l cat = Some cs \<and> \<not> no_snippet_available l cat \<longrightarrow>
            (let n = length (ids cs) + length (no_id cs);
                 index = uniform_int ext seed 0 (n - 1)
             in index < n
              \<and> (index < length (ids cs) \<longrightarrow>
                   random_from_category ext l cat seed = get_snippet_by_id l (ids cs ! index)
                 \<and> get_snippet_by_id l (ids cs ! index) \<noteq> None)
              \<and> (length (ids cs) \<le> index \<longrightarrow>
                   random_from_category ext l cat seed
                     = Some (no_id cs ! (index - length (ids cs))))))"
proof (cases "snippets_by_category l cat")
  case None
  then show ?thesis by (simp add: random_from_category_def no_snippet_available_def)
next
  case (Some cs)
  show ?thesis
  proof (cases "ids cs = [] \<and> no_id cs = []")
    case True
    with Some show ?thesis by (simp add: random_from_category_def no_snippet_available_def)
  next
    case False
    define n where "n = length (ids cs) + length (no_id cs)"
    define index where "index = uniform_int ext seed 0 (n - 1)"
    from False have "0 < n" by (auto simp: n_def)
    with assms(2) have lt: "index < n"
      unfolding uniform_int_in_range_def index_def
      by (metis Suc_pred' le0 less_Suc_eq_le)
    have known: "get_snippet_by_id l (ids cs ! index) \<noteq> None" if "index < length (ids cs)"
      using assms(1) Some that
      by (auto simp: registry_inv_def get_snippet_by_id_def)
    have r: "random_from_category ext l cat seed =
        (if index < length (ids cs) then get_snippet_by_id l (ids cs ! index)
         else Some (no_id cs ! (index - length (ids cs))))"
      using Some False by (simp add: random_from_category_def Let_def n_def index_def)
    from r known lt
    have main: "index < n
        \<and> (index < length (ids cs) \<longrightarrow>
             random_from_category ext l cat seed = get_snippet_by_id l (ids cs ! index)
           \<and> get_snippet_by_id l (ids cs ! index) \<noteq> None)
        \<and> (length (ids cs) \<le> index \<longrightarrow>
             random_from_category ext l cat seed = Some (no_id cs ! (index - length (ids cs))))"
      by auto
    have avail: "\<not> no_snippet_available l cat"
      using Some False by (simp add: no_snippet_available_def)
    have some: "random_from_category ext l cat seed \<noteq> None"
      using r known by (auto split: if_splits)
    show ?thesis
      using Some avail some main unfolding Let_def n_def index_def by simp
  qed
qed

theorem random_from_category_selects_witness:
  "registry_inv example_library
   \<and> uniform_int_in_range example_externals
   \<and> \<not> no_snippet_available example_library ''<c>''
   \<and> uniform_int example_externals 4 0 1 = 0
   \<and> random_from_category example_externals example_library ''<c>'' 4 = Some ''some text''
   \<and> uniform_int example_externals 5 0 1 = 1
   \<and> random_from_category example_externals example_library ''<c>'' 5 = Some ''plain''
   \<and> no_snippet_available example_library ''<d>''
   \<and> random_from_category example_externals example_library ''<d>'' 5 = None"
proof -
  have i: "registry_inv example_library"
    unfolding example_library_def by (rule inv_run[OF inv_empty])
  show ?thesis
    using i random_from_category_selects[OF i example_uniform_int_in_range, of "''<c>''" 4]
      random_from_category_selects[OF i example_uniform_int_in_range, of "''<c>''" 5]
      random_from_category_selects[OF i example_uniform_int_in_range, of "''<d>''" 5]
      example_uniform_int_in_range
    by (simp add: no_snippet_available_def example_library_fields get_snippet_by_id_def
          random_from_category_def Let_def example_externals_def numeral_2_eq_2[symmetric])
qed



text \<open>
  C8. The registry invariant holds in the empty library and each writing member
  function keeps it, so it holds in every library a program can reach; the other
  member functions change nothing. Under the invariant, looking up an id taken from
  a category finds a text.
\<close>

theorem registry_inv_preserved:
  "registry_inv (empty_library :: ('t, 'e) snippet_library)
   \<and> (registry_inv l \<longrightarrow> registry_inv (call_step ext c l))
   \<and> registry_inv (run_calls ext calls (empty_library :: ('t, 'e) snippet_library))
   \<and> (registry_inv l \<and> snippets_by_category l cat = Some cs \<and> i \<in> set (ids cs)
        \<longrightarrow> get_snippet_by_id l i \<noteq> None)"
proof (intro conjI impI)
  assume "registry_inv l \<and> snippets_by_category l cat = Some cs \<and> i \<in> set (ids cs)"
  then show "get_snippet_by_id l i \<noteq> None"
    by (auto simp: registry_inv_def get_snippet_by_id_def)
qed (simp_all add: inv_empty inv_step inv_run)

theorem registry_inv_preserved_witness:
  "registry_inv example_library
   \<and> registry_inv (call_step example_externals Clear_snippets example_library)
   \<and> snippets_by_category example_library ''<c>''
        = Some \<lparr>ids = [snippet_id ''x''], no_id = [''plain'']\<rparr>
   \<and> get_snippet_by_id example_library (snippet_id ''x'') = Some ''some text''"
  using registry_inv_preserved
          [of example_library example_externals Clear_snippets
              "[Add_snippet_from_json ''<c>'' example_entry,
                Add_snippets_from_json ''<c>'' [JsonString (Some ''plain'')]]"
              "''<c>''" "\<lparr>ids = [snippet_id ''x''], no_id = [''plain'']\<rparr>" "snippet_id ''x''"]
  by (simp add: example_library_def[symmetric] example_library_fields get_snippet_by_id_def)

text \<open>
  C9. \<^verbatim>\<open>get_snippets_by_category\<close> returns the empty list for an unknown category.
  For a known one it returns the pair of the null id and the empty string, when
  \<open>add_null_id\<close> is set and the category has an id, followed by one pair for each id
  of the category in the order of the vector \<^verbatim>\<open>ids\<close>: the id and the translated text
  that \<^verbatim>\<open>get_snippet_ref_by_id\<close> gives for it. Anonymous texts do not appear: adding
  one leaves the listing as it is. The order is the order of insertion: under the
  registry invariant, an entry added with an id comes last in the listing.
\<close>

theorem get_snippets_by_category_lists_ids:
  "(snippets_by_category l cat = None \<longrightarrow> get_snippets_by_category ext l cat add_null_id = [])
   \<and> (\<forall>cs. snippets_by_category l cat = Some cs \<longrightarrow>
         get_snippets_by_category ext l cat add_null_id
           = (if add_null_id \<and> ids cs \<noteq> [] then [(NULL_ID ext, [])] else [])
             @ map (\<lambda>i. (i, translated ext (get_snippet_ref_by_id ext l i))) (ids cs))
   \<and> get_snippets_by_category ext (emplace_back_no_id cat t' l) cat add_null_id
        = get_snippets_by_category ext l cat add_null_id
   \<and> (registry_inv l \<and> jo_text jo = Some t \<and> jo_id jo = Some i
        \<and> fst (add_snippet_from_json ext cat jo l) = Inr ()
       \<longrightarrow> get_snippets_by_category ext (snd (add_snippet_from_json ext cat jo l)) cat False
             = get_snippets_by_category ext l cat False @ [(i, translated ext t)])"
  by (intro conjI impI allI)
    (simp_all add: listing_unknown listing_known listing_after_no_id listing_after_id)

theorem get_snippets_by_category_lists_ids_witness:
  "get_snippets_by_category example_externals example_library ''<d>'' True = []
   \<and> snippets_by_category example_library ''<c>''
        = Some \<lparr>ids = [snippet_id ''x''], no_id = [''plain'']\<rparr>
   \<and> get_snippets_by_category example_externals example_library ''<c>'' True
        = [(snippet_id ''null'', ''''), (snippet_id ''x'', ''some text'')]
   \<and> get_snippets_by_category example_externals example_library ''<c>'' False
        = [(snippet_id ''x'', ''some text'')]
   \<and> registry_inv example_library
   \<and> fst (add_snippet_from_json example_externals ''<c>''
             \<lparr>jo_text = Some ''more'', jo_id = Some (snippet_id ''y''),
              jo_effect_on_examine = None, jo_name = None\<rparr> example_library) = Inr ()
   \<and> get_snippets_by_category example_externals
        (snd (add_snippet_from_json example_externals ''<c>''
                \<lparr>jo_text = Some ''more'', jo_id = Some (snippet_id ''y''),
                 jo_effect_on_examine = None, jo_name = None\<rparr> example_library)) ''<c>'' False
        = [(snippet_id ''x'', ''some text''), (snippet_id ''y'', ''more'')]"
proof -
  have i: "registry_inv example_library"
    unfolding example_library_def by (rule inv_run[OF inv_empty])
  show ?thesis
    using i
      get_snippets_by_category_lists_ids
        [of example_library "''<d>''" example_externals True "''plain''"
            "\<lparr>jo_text = Some ''more'', jo_id = Some (snippet_id ''y''),
              jo_effect_on_examine = None, jo_name = None\<rparr>" "''more''" "snippet_id ''y''"]
      get_snippets_by_category_lists_ids
        [of example_library "''<c>''" example_externals True "''plain''"
            "\<lparr>jo_text = Some ''more'', jo_id = Some (snippet_id ''y''),
              jo_effect_on_examine = None, jo_name = None\<rparr>" "''more''" "snippet_id ''y''"]
      get_snippets_by_category_lists_ids
        [of example_library "''<c>''" example_externals False "''plain''"
            "\<lparr>jo_text = Some ''more'', jo_id = Some (snippet_id ''y''),
              jo_effect_on_examine = None, jo_name = None\<rparr>" "''more''" "snippet_id ''y''"]
    by (simp add: example_library_fields get_snippet_ref_by_id_def example_externals_def
          add_snippet_from_json_def Let_def)
qed

text \<open>
  C10. When adding an entry fails with \<open>InvalidId\<close> or \<open>DuplicateId\<close>, the four maps
  are what they were before the call, and the migration table is absent after it.
\<close>

theorem failed_add_changes_only_migration:
  assumes "fst (add_snippet_from_json ext category jo l) = Inl InvalidId
         \<or> fst (add_snippet_from_json ext category jo l) = Inl DuplicateId"
  shows "snippets_by_category (snd (add_snippet_from_json ext category jo l))
           = snippets_by_category l
       \<and> snippets_by_id (snd (add_snippet_from_json ext category jo l)) = snippets_by_id l
       \<and> EOC_by_id (snd (add_snippet_from_json ext category jo l)) = EOC_by_id l
       \<and> name_by_id (snd (add_snippet_from_json ext category jo l)) = name_by_id l
       \<and> hash_to_id_migration (snd (add_snippet_from_json ext category jo l)) = None"
  using assms by (auto simp: snd_add_error)

theorem failed_add_changes_only_migration_witness:
  "fst (add_snippet_from_json example_externals ''<e>'' example_entry
          (snd (migrate_hash_to_id example_externals 9 example_library))) = Inl DuplicateId
   \<and> hash_to_id_migration (snd (migrate_hash_to_id example_externals 9 example_library)) \<noteq> None
   \<and> snippets_by_category
        (snd (add_snippet_from_json example_externals ''<e>'' example_entry
                (snd (migrate_hash_to_id example_externals 9 example_library))))
        = snippets_by_category example_library
   \<and> snippets_by_id
        (snd (add_snippet_from_json example_externals ''<e>'' example_entry
                (snd (migrate_hash_to_id example_externals 9 example_library))))
        = [(snippet_id ''x'', ''some text'')]
   \<and> hash_to_id_migration
        (snd (add_snippet_from_json example_externals ''<e>'' example_entry
                (snd (migrate_hash_to_id example_externals 9 example_library)))) = None"
proof -
  have d: "fst (add_snippet_from_json example_externals ''<e>'' example_entry
                  (snd (migrate_hash_to_id example_externals 9 example_library)))
             = Inl DuplicateId"
    by (simp add: add_snippet_from_json_def migrate_hash_to_id_def Let_def example_entry_def
          example_externals_def example_library_fields)
  show ?thesis
    using d failed_add_changes_only_migration
              [of example_externals "''<e>''" example_entry
                  "snd (migrate_hash_to_id example_externals 9 example_library)"]
    by (simp add: migrate_hash_to_id_def Let_def example_library_fields)
qed

end
